theory Spec2Isabelle
  imports Main "HOL-Library.Char_ord" "HOL-Library.Sublist"
begin

section \<open>Strings and the filesystem\<close>

text \<open>
  Paths, platform names and message texts are byte strings (UTF-8); \<open>lower\<close> is
  \<open>str.lower()\<close> on their ASCII letters. The texts and urls the classifier reads are
  Python \<open>str\<close> values as lists of Unicode code points (integers); \<open>uni\<close> embeds an ASCII
  literal and \<open>utf8\<close> is the encoding of a text that goes into a message.
\<close>

type_synonym ustring = "int list"

definition uni :: "string \<Rightarrow> ustring" where
  "uni s = map of_char s"

definition utf8_char :: "int \<Rightarrow> string" where
  "utf8_char c =
     (if c < 0x80 then [char_of c]
      else if c < 0x800 then [char_of (0xC0 + c div 0x40), char_of (0x80 + c mod 0x40)]
      else if c < 0x10000 then
        [char_of (0xE0 + c div 0x1000), char_of (0x80 + c div 0x40 mod 0x40),
         char_of (0x80 + c mod 0x40)]
      else
        [char_of (0xF0 + c div 0x40000), char_of (0x80 + c div 0x1000 mod 0x40),
         char_of (0x80 + c div 0x40 mod 0x40), char_of (0x80 + c mod 0x40)])"

definition utf8 :: "ustring \<Rightarrow> string" where
  "utf8 t = concat (map utf8_char t)"

definition lower_char :: "char \<Rightarrow> char" where
  "lower_char c =
     (if CHR ''A'' \<le> c \<and> c \<le> CHR ''Z'' then char_of (of_char c + (32::nat)) else c)"

definition lower :: "string \<Rightarrow> string" where
  "lower s = map lower_char s"

definition endswith :: "string \<Rightarrow> string \<Rightarrow> bool" where
  "endswith s ext = (length ext \<le> length s \<and> drop (length s - length ext) s = ext)"

text \<open>\<open>str(n)\<close> for a non-negative integer and for any integer.\<close>

definition digit_char :: "nat \<Rightarrow> char" where
  "digit_char d = char_of (48 + d)"

fun str_nat :: "nat \<Rightarrow> string" where
  "str_nat n = (if n < 10 then [digit_char n] else str_nat (n div 10) @ [digit_char (n mod 10)])"

declare str_nat.simps [simp del]

definition str_int :: "int \<Rightarrow> string" where
  "str_int i = (if i < 0 then CHR ''-'' # str_nat (nat (- i)) else str_nat (nat i))"

text \<open>
  The filesystem maps every existing path to its \<open>st_size\<close>;
  \<open>Path(p).exists()\<close> is membership in the domain.
\<close>

type_synonym fs = "string \<rightharpoonup> nat"

definition path_exists :: "fs \<Rightarrow> string \<Rightarrow> bool" where
  "path_exists fs p = (fs p \<noteq> None)"

definition st_size :: "fs \<Rightarrow> string \<Rightarrow> nat" where
  "st_size fs p = (case fs p of Some n \<Rightarrow> n | None \<Rightarrow> 0)"

text \<open>
  \<open>Path(p).name\<close> on POSIX: the path is cut at \<open>/\<close>, empty and \<open>.\<close>
  components are dropped, and the last remaining component is the name
  (the empty string when none remains).
\<close>

fun split_slash :: "string \<Rightarrow> string \<Rightarrow> string list" where
  "split_slash [] cur = [cur]"
| "split_slash (c # cs) cur =
     (if c = CHR ''/'' then cur # split_slash cs [] else split_slash cs (cur @ [c]))"

definition path_parts :: "string \<Rightarrow> string list" where
  "path_parts p = filter (\<lambda>s. s \<noteq> [] \<and> s \<noteq> ''.'') (split_slash p [])"

definition path_name :: "string \<Rightarrow> string" where
  "path_name p = (case rev (path_parts p) of [] \<Rightarrow> [] | n # _ \<Rightarrow> n)"

section \<open>The ledger (db\_service.py)\<close>

record download_history =
  dh_user_id :: int
  dh_url :: ustring
  dh_platform :: string
  dh_status :: string
  dh_file_path :: "string option"
  dh_file_size :: "int option"
  dh_created_at :: nat
  dh_completed_at :: "nat option"
  dh_error_message :: "string option"

type_synonym ledger = "int \<rightharpoonup> download_history"

text \<open>Python truthiness of an optional string and of an optional integer.\<close>

fun truthy_str :: "string option \<Rightarrow> bool" where
  "truthy_str None = False"
| "truthy_str (Some s) = (s \<noteq> [])"

fun truthy_int :: "int option \<Rightarrow> bool" where
  "truthy_int None = False"
| "truthy_int (Some n) = (n \<noteq> 0)"

text \<open>
  \<open>DatabaseService.update_download_record\<close>. The clock value \<open>now\<close> stands for
  \<open>datetime.utcnow()\<close>.
\<close>

definition update_download_record ::
  "ledger \<Rightarrow> nat \<Rightarrow> int \<Rightarrow> string \<Rightarrow> string option \<Rightarrow> int option \<Rightarrow> string option \<Rightarrow> ledger"
where
  "update_download_record db now record_id status file_path file_size error_message =
     (case db record_id of
        None \<Rightarrow> db
      | Some record \<Rightarrow>
          (let r1 = record\<lparr>dh_status := status\<rparr>;
               r2 = (if truthy_str file_path then r1\<lparr>dh_file_path := file_path\<rparr> else r1);
               r3 = (if truthy_int file_size then r2\<lparr>dh_file_size := file_size\<rparr> else r2);
               r4 = (if truthy_str error_message
                     then r3\<lparr>dh_error_message := error_message\<rparr> else r3);
               r5 = (if status = ''completed''
                     then r4\<lparr>dh_completed_at := Some now\<rparr> else r4)
           in db(record_id \<mapsto> r5)))"

text \<open>\<open>DatabaseService.create_download_record\<close>: the row a request handler inserts.\<close>

definition new_record :: "int \<Rightarrow> ustring \<Rightarrow> string \<Rightarrow> nat \<Rightarrow> download_history" where
  "new_record user_id url platform now =
     \<lparr>dh_user_id = user_id, dh_url = url, dh_platform = platform, dh_status = ''pending'',
      dh_file_path = None, dh_file_size = None, dh_created_at = now,
      dh_completed_at = None, dh_error_message = None\<rparr>"

section \<open>URL classification (utils/url\_parser.py)\<close>

text \<open>
  The character tables of the regular expression engine (CPython 3.11, Unicode 14.0):
  \<open>\s\<close> and \<open>str.strip()\<close> use the Unicode whitespace characters, \<open>\d\<close> the Unicode
  decimal digits, which come in the blocks \<open>(first code point, length)\<close> listed here.
  Under \<open>re.IGNORECASE\<close> an ASCII letter of a pattern also matches its other case and,
  for \<open>i\<close>, \<open>k\<close> and \<open>s\<close>, the code points U+0130, U+0131, U+212A and U+017F;
  \<open>fold_ci\<close> sends every code point that matches an ASCII letter to that letter in
  lower case. The literals of the source's patterns are ASCII.
\<close>

definition is_space :: "int \<Rightarrow> bool" where
  "is_space c =
     ((9 \<le> c \<and> c \<le> 13) \<or> (28 \<le> c \<and> c \<le> 32) \<or> c = 0x85 \<or> c = 0xA0 \<or> c = 0x1680 \<or>
      (0x2000 \<le> c \<and> c \<le> 0x200A) \<or> c = 0x2028 \<or> c = 0x2029 \<or> c = 0x202F \<or>
      c = 0x205F \<or> c = 0x3000)"

definition decimal_blocks :: "(int \<times> int) list" where
  "decimal_blocks =
   [
    (0x30, 10), (0x660, 10), (0x6F0, 10), (0x7C0, 10), (0x966, 10), (0x9E6, 10),
    (0xA66, 10), (0xAE6, 10), (0xB66, 10), (0xBE6, 10), (0xC66, 10), (0xCE6, 10),
    (0xD66, 10), (0xDE6, 10), (0xE50, 10), (0xED0, 10), (0xF20, 10), (0x1040, 10),
    (0x1090, 10), (0x17E0, 10), (0x1810, 10), (0x1946, 10), (0x19D0, 10), (0x1A80, 10),
    (0x1A90, 10), (0x1B50, 10), (0x1BB0, 10), (0x1C40, 10), (0x1C50, 10), (0xA620, 10),
    (0xA8D0, 10), (0xA900, 10), (0xA9D0, 10), (0xA9F0, 10), (0xAA50, 10), (0xABF0, 10),
    (0xFF10, 10), (0x104A0, 10), (0x10D30, 10), (0x11066, 10), (0x110F0, 10), (0x11136, 10),
    (0x111D0, 10), (0x112F0, 10), (0x11450, 10), (0x114D0, 10), (0x11650, 10), (0x116C0, 10),
    (0x11730, 10), (0x118E0, 10), (0x11950, 10), (0x11C50, 10), (0x11D50, 10), (0x11DA0, 10),
    (0x16A60, 10), (0x16AC0, 10), (0x16B50, 10), (0x1D7CE, 50), (0x1E140, 10), (0x1E2F0, 10),
    (0x1E950, 10), (0x1FBF0, 10)]"

definition is_digit :: "int \<Rightarrow> bool" where
  "is_digit c = list_ex (\<lambda>(first, n). first \<le> c \<and> c < first + n) decimal_blocks"

definition fold_ci :: "int \<Rightarrow> int" where
  "fold_ci c =
     (if 65 \<le> c \<and> c \<le> 90 then c + 32
      else if c = 0x130 \<or> c = 0x131 then 105
      else if c = 0x212A then 107
      else if c = 0x17F then 115
      else c)"

definition ascii_alnum :: "int \<Rightarrow> bool" where
  "ascii_alnum c = ((65 \<le> c \<and> c \<le> 90) \<or> (97 \<le> c \<and> c \<le> 122) \<or> (48 \<le> c \<and> c \<le> 57))"

text \<open>
  The regular expressions of the source use literals, optional groups, alternation and
  \<open>+\<close> over a character class only. The classes \<open>\d\<close>, \<open>[A-Za-z0-9]\<close>,
  \<open>[A-Za-z0-9_-]\<close>, \<open>[^/]\<close> and \<open>.\<close> occur under \<open>re.IGNORECASE\<close> only, the
  class \<open>[^\s]\<close> without it. \<open>rx_match ic r s\<close> lists, in the order in which Python's
  backtracking matcher tries them (greedy first), the remainders of \<open>s\<close> after a prefix
  matched by \<open>r\<close>; \<open>ic\<close> is \<open>re.IGNORECASE\<close>.
\<close>

datatype cls = Digit | Alnum | AlnumUD | NotSlash | AnyChar | NotSpace

fun cls_mem :: "cls \<Rightarrow> int \<Rightarrow> bool" where
  "cls_mem Digit c = is_digit c"
| "cls_mem Alnum c = ascii_alnum (fold_ci c)"
| "cls_mem AlnumUD c = (ascii_alnum (fold_ci c) \<or> c = 95 \<or> c = 45)"
| "cls_mem NotSlash c = (c \<noteq> 47)"
| "cls_mem AnyChar c = (c \<noteq> 10)"
| "cls_mem NotSpace c = (\<not> is_space c)"

datatype rx = Lit ustring | Plus cls | Opt rx | Alt rx rx | Seq rx rx

fun plus_rests :: "cls \<Rightarrow> ustring \<Rightarrow> ustring list" where
  "plus_rests k [] = []"
| "plus_rests k (c # cs) = (if cls_mem k c then plus_rests k cs @ [cs] else [])"

definition lit_match :: "bool \<Rightarrow> ustring \<Rightarrow> ustring \<Rightarrow> bool" where
  "lit_match ic l s =
     (length l \<le> length s \<and>
      (if ic then map fold_ci (take (length l) s) = map fold_ci l
       else take (length l) s = l))"

fun rx_match :: "bool \<Rightarrow> rx \<Rightarrow> ustring \<Rightarrow> ustring list" where
  "rx_match ic (Lit l) s = (if lit_match ic l s then [drop (length l) s] else [])"
| "rx_match ic (Plus k) s = plus_rests k s"
| "rx_match ic (Opt r) s = rx_match ic r s @ [s]"
| "rx_match ic (Alt a b) s = rx_match ic a s @ rx_match ic b s"
| "rx_match ic (Seq a b) s = concat (map (rx_match ic b) (rx_match ic a s))"

text \<open>\<open>re.match(pattern, url, re.IGNORECASE)\<close> as a truth value.\<close>

definition re_match_ic :: "rx \<Rightarrow> ustring \<Rightarrow> bool" where
  "re_match_ic r s = (rx_match True r s \<noteq> [])"

fun cat :: "rx list \<Rightarrow> rx" where
  "cat [] = Lit []"
| "cat [r] = r"
| "cat (r # rs) = Seq r (cat rs)"

text \<open>The two optional prefixes shared by the patterns.\<close>

definition scheme_opt :: rx where
  "scheme_opt = Opt (cat [Lit (uni ''http''), Opt (Lit (uni ''s'')), Lit (uni ''://'')])"

definition www_opt :: rx where
  "www_opt = Opt (Lit (uni ''www.''))"

definition PATTERNS :: "(string \<times> rx list) list" where
  "PATTERNS =
   [(''tiktok'',
       [cat [scheme_opt, www_opt, Lit (uni ''tiktok.com/@''), Plus NotSlash, Lit (uni ''/video/''), Plus Digit],
        cat [scheme_opt, Alt (Lit (uni ''vm.tiktok.com'')) (Lit (uni ''vt.tiktok.com'')), Lit (uni ''/''), Plus Alnum],
        cat [scheme_opt, www_opt, Lit (uni ''tiktok.com/t/''), Plus Alnum]]),
    (''douyin'',
       [cat [scheme_opt, www_opt, Lit (uni ''douyin.com/video/''), Plus Digit],
        cat [scheme_opt, Lit (uni ''v.douyin.com/''), Plus Alnum]]),
    (''instagram'',
       [cat [scheme_opt, www_opt, Lit (uni ''instagram.com/p/''), Plus AlnumUD],
        cat [scheme_opt, www_opt, Lit (uni ''instagram.com/reel/''), Plus AlnumUD],
        cat [scheme_opt, www_opt, Lit (uni ''instagram.com/tv/''), Plus AlnumUD]]),
    (''youtube'',
       [cat [scheme_opt, www_opt, Lit (uni ''youtube.com/watch?v=''), Plus AlnumUD],
        cat [scheme_opt, Lit (uni ''youtu.be/''), Plus AlnumUD],
        cat [scheme_opt, www_opt, Lit (uni ''youtube.com/shorts/''), Plus AlnumUD]]),
    (''twitter'',
       [cat [scheme_opt, www_opt, Lit (uni ''twitter.com/''), Plus NotSlash, Lit (uni ''/status/''), Plus Digit],
        cat [scheme_opt, www_opt, Lit (uni ''x.com/''), Plus NotSlash, Lit (uni ''/status/''), Plus Digit]]),
    (''facebook'',
       [cat [scheme_opt, www_opt, Lit (uni ''facebook.com/''), Plus AnyChar, Lit (uni ''/videos/''), Plus Digit],
        cat [scheme_opt, www_opt, Lit (uni ''fb.watch/''), Plus AlnumUD]])]"

definition strip :: "ustring \<Rightarrow> ustring" where
  "strip s = rev (dropWhile is_space (rev (dropWhile is_space s)))"

text \<open>The two nested iterations of \<open>URLParser.detect_platform\<close>.\<close>

fun any_pattern :: "rx list \<Rightarrow> ustring \<Rightarrow> bool" where
  "any_pattern [] url = False"
| "any_pattern (pattern # patterns) url =
     (if re_match_ic pattern url then True else any_pattern patterns url)"

fun first_platform :: "(string \<times> rx list) list \<Rightarrow> ustring \<Rightarrow> string option" where
  "first_platform [] url = None"
| "first_platform ((platform, patterns) # rest) url =
     (if any_pattern patterns url then Some platform else first_platform rest url)"

definition detect_platform :: "ustring \<Rightarrow> string option" where
  "detect_platform url = first_platform PATTERNS (strip url)"





section \<open>The classifier as the specification words it\<close>








section \<open>The platform registry (main.py)\<close>

text \<open>
  \<open>s.replace(old, new)\<close> for a non-empty \<open>old\<close>, and \<open>Path.stem\<close> of a file
  name that ends in \<open>.py\<close> (every name the glob \<open>*_service.py\<close> yields does).
\<close>

function str_replace :: "string \<Rightarrow> string \<Rightarrow> string \<Rightarrow> string" where
  "str_replace old new [] = []"
| "str_replace old new (c # cs) =
     (if old \<noteq> [] \<and> take (length old) (c # cs) = old
      then new @ str_replace old new (drop (length old) (c # cs))
      else c # str_replace old new cs)"
  by pat_completeness auto
termination
  by (relation "measure (\<lambda>(old, new, s). length s)") auto

definition stem :: "string \<Rightarrow> string" where
  "stem name = take (length name - 3) name"

definition fallback_platforms :: "string list" where
  "fallback_platforms = [''youtube'', ''twitter'', ''facebook'', ''generic'']"

fun register_fallbacks :: "string list \<Rightarrow> 'f \<Rightarrow> (string \<rightharpoonup> 'f) \<Rightarrow> (string \<rightharpoonup> 'f)" where
  "register_fallbacks [] inst services = services"
| "register_fallbacks (platform # rest) inst services =
     register_fallbacks rest inst
       (if services platform = None then services(platform \<mapsto> inst) else services)"

text \<open>
  \<open>_discover_services\<close>. \<open>service_files\<close> are the names the glob returns, in its
  order; \<open>load module_name\<close> is the instance built from the module's service class, or
  \<open>None\<close> when the import fails, no class qualifies or the constructor raises (each of
  which registers nothing for that file).
\<close>

fun discover_loop ::
  "(string \<Rightarrow> 'f option) \<Rightarrow> string list \<Rightarrow> (string \<rightharpoonup> 'f) \<Rightarrow> (string \<rightharpoonup> 'f)" where
  "discover_loop load [] services = services"
| "discover_loop load (service_file # rest) services =
     (if service_file \<in> set [''base_downloader.py'', ''__init__.py'']
      then discover_loop load rest services
      else
        (let module_name = stem service_file;
             service_name = str_replace ''_service'' [] module_name
         in case load module_name of
              None \<Rightarrow> discover_loop load rest services
            | Some service_instance \<Rightarrow>
                (let services1 = services(service_name \<mapsto> service_instance);
                     services2 =
                       (if service_name = ''tiktok''
                        then services1(''douyin'' \<mapsto> service_instance)
                        else if service_name = ''ytdlp''
                        then register_fallbacks fallback_platforms service_instance services1
                        else services1)
                 in discover_loop load rest services2)))"

definition discover_services :: "(string \<Rightarrow> 'f option) \<Rightarrow> string list \<Rightarrow> (string \<rightharpoonup> 'f)" where
  "discover_services load service_files = discover_loop load service_files Map.empty"

text \<open>\<open>get_service_for_url\<close>; a registered service instance is truthy.\<close>

definition get_service_for_url :: "(string \<rightharpoonup> 'f) \<Rightarrow> ustring \<Rightarrow> 'f option" where
  "get_service_for_url services url =
     (case detect_platform url of
        None \<Rightarrow> services ''generic''
      | Some platform \<Rightarrow>
          (case services platform of
             Some service \<Rightarrow> Some service
           | None \<Rightarrow>
               (case services ''generic'' of
                  Some generic_service \<Rightarrow> Some generic_service
                | None \<Rightarrow> None)))"

section \<open>Delivery (main.py, send\_files\_to\_user)\<close>

text \<open>
  A call of the chat transport either completes or raises; \<open>app a = Some e\<close> says that
  the call \<open>a\<close> raises an exception whose text is \<open>e\<close>.
\<close>

datatype action =
    SendMessage int string
  | SendDocument int string string
  | SendVideo int string string
  | SendPhoto int string string

type_synonym transport = "action \<Rightarrow> string option"

type_synonym metadata = "string \<rightharpoonup> string"

text \<open>The check mark and the cross mark of the message texts, as UTF-8 bytes.\<close>

definition check_mark :: string where
  "check_mark = [CHR 0xE2, CHR 0x9C, CHR 0x85]"

definition cross_mark :: string where
  "cross_mark = [CHR 0xE2, CHR 0x9D, CHR 0x8C]"

definition no_files_text :: string where
  "no_files_text = cross_mark @ '' No files were downloaded.''"

definition error_sending_text :: "string \<Rightarrow> string" where
  "error_sending_text e = cross_mark @ '' Error sending files: '' @ e"

definition download_failed_text :: "ustring \<Rightarrow> string \<Rightarrow> string" where
  "download_failed_text url e =
     cross_mark @ '' Download failed for '' @ utf8 url @ [CHR 0x0A] @ ''Error: '' @ e"

definition caption_of :: "metadata \<Rightarrow> string" where
  "caption_of md =
     check_mark @ '' '' @
       (if truthy_str (md ''title'') then the (md ''title'')
        else if truthy_str (md ''caption'') then the (md ''caption'')
        else ''Media Downloaded'')"

definition archive_caption :: "metadata \<Rightarrow> string list \<Rightarrow> string" where
  "archive_caption md files =
     check_mark @ '' Downloaded: '' @
       (case md ''title'' of Some t \<Rightarrow> t | None \<Rightarrow> ''Media files'') @
       '' ('' @ str_nat (length files) @ '' files)''"

definition video_exts :: "string list" where
  "video_exts = [''.mp4'', ''.avi'', ''.mov'', ''.mkv'']"

definition photo_exts :: "string list" where
  "photo_exts = [''.jpg'', ''.jpeg'', ''.png'', ''.gif'', ''.webp'']"

definition has_ext :: "string list \<Rightarrow> string \<Rightarrow> bool" where
  "has_ext exts file_path_str = list_ex (\<lambda>ext. endswith (lower file_path_str) ext) exts"

text \<open>
  The loop that fills the archive: one entry \<open>(arcname, source)\<close> per listed file that
  exists, the arcname being \<open>Path(file_path).name\<close>.
\<close>

fun zip_write_all :: "fs \<Rightarrow> string list \<Rightarrow> (string \<times> string) list \<Rightarrow> (string \<times> string) list" where
  "zip_write_all fs [] zf = zf"
| "zip_write_all fs (file_path # rest) zf =
     zip_write_all fs rest
       (if path_exists fs file_path then zf @ [(path_name file_path, file_path)] else zf)"

text \<open>
  What a run of the delivery step leaves behind: the transport calls that completed, the
  filesystem, the entries of the archive if one was written, the logged errors and the
  exception that escapes, if any.
\<close>

record delivery =
  dl_sent :: "action list"
  dl_fs :: fs
  dl_archive :: "(string \<times> string) list option"
  dl_logged :: "string list"
  dl_raised :: "string option"

text \<open>A single transport call inside the \<open>try\<close> block.\<close>

definition attempt :: "transport \<Rightarrow> action \<Rightarrow> fs \<Rightarrow> delivery" where
  "attempt app a fs =
     (case app a of
        None \<Rightarrow> \<lparr>dl_sent = [a], dl_fs = fs, dl_archive = None, dl_logged = [], dl_raised = None\<rparr>
      | Some e \<Rightarrow> \<lparr>dl_sent = [], dl_fs = fs, dl_archive = None, dl_logged = [], dl_raised = Some e\<rparr>)"

text \<open>
  The body of the \<open>try\<close> block. \<open>tmp\<close> is the name \<open>NamedTemporaryFile\<close> chose
  together with the size of the archive written there; with \<open>delete=False\<close> closing
  the file leaves it on disk, so only the \<open>unlink\<close> after the send removes it.
\<close>

definition send_files_body ::
  "transport \<Rightarrow> string \<times> nat \<Rightarrow> fs \<Rightarrow> int \<Rightarrow> string list \<Rightarrow> metadata \<Rightarrow> delivery" where
  "send_files_body app tmp fs chat_id files md =
     (case files of
        [] \<Rightarrow> attempt app (SendMessage chat_id no_files_text) fs
      | file_path_str # _ \<Rightarrow>
          (if length files > 1 then
             (let entries = zip_write_all fs files [];
                  fs1 = fs(fst tmp \<mapsto> snd tmp);
                  a = SendDocument chat_id (fst tmp) (archive_caption md files)
              in case app a of
                   Some e \<Rightarrow>
                     \<lparr>dl_sent = [], dl_fs = fs1, dl_archive = Some entries,
                      dl_logged = [], dl_raised = Some e\<rparr>
                 | None \<Rightarrow>
                     \<lparr>dl_sent = [a], dl_fs = fs1(fst tmp := None), dl_archive = Some entries,
                      dl_logged = [], dl_raised = None\<rparr>)
           else if path_exists fs file_path_str then
             (if has_ext video_exts file_path_str
              then attempt app (SendVideo chat_id file_path_str (caption_of md)) fs
              else if has_ext photo_exts file_path_str
              then attempt app (SendPhoto chat_id file_path_str (caption_of md)) fs
              else attempt app (SendDocument chat_id file_path_str (caption_of md)) fs)
           else
             \<lparr>dl_sent = [], dl_fs = fs, dl_archive = None, dl_logged = [], dl_raised = None\<rparr>))"

text \<open>
  \<open>send_files_to_user\<close>: the \<open>except\<close> clause logs the error and sends a notice; that
  send is not guarded, so an exception it raises leaves the function.
\<close>

definition send_files_to_user ::
  "transport \<Rightarrow> string \<times> nat \<Rightarrow> fs \<Rightarrow> int \<Rightarrow> string list \<Rightarrow> metadata \<Rightarrow> delivery" where
  "send_files_to_user app tmp fs chat_id files md =
     (let d = send_files_body app tmp fs chat_id files md
      in case dl_raised d of
           None \<Rightarrow> d
         | Some e \<Rightarrow>
             (let a = SendMessage chat_id (error_sending_text e)
              in case app a of
                   None \<Rightarrow> d\<lparr>dl_sent := dl_sent d @ [a], dl_logged := dl_logged d @ [e],
                              dl_raised := None\<rparr>
                 | Some e2 \<Rightarrow> d\<lparr>dl_logged := dl_logged d @ [e], dl_raised := Some e2\<rparr>))"

section \<open>The download job (main.py, process\_download\_task)\<close>

record task_data =
  td_record_id :: int
  td_user_id :: int
  td_chat_id :: int
  td_url :: ustring
  td_platform :: string

text \<open>
  What \<open>service.download\<close> hands back: the result dictionary (\<open>error\<close> and
  \<open>metadata\<close> may be missing from it), or an exception raised inside
  \<open>async with service\<close>.
\<close>

record fetch_result =
  fr_success :: bool
  fr_files :: "string list"
  fr_metadata :: metadata
  fr_error :: "string option"

datatype outcome = Raised string | Returned fetch_result

record config =
  DOWNLOAD_PATH :: string
  CLEANUP_DELAY_HOURS :: int
  MAX_CONCURRENT_DOWNLOADS :: nat

text \<open>
  The state a job works on: the ledger, the filesystem, the transport calls completed so
  far, and the cleanup coroutines created so far as \<open>(user_id, record_id, delay_hours)\<close>.
\<close>

record world =
  w_db :: ledger
  w_fs :: fs
  w_sent :: "action list"
  w_cleanups :: "(int \<times> int \<times> int) list"

text \<open>\<open>str(Path(config.DOWNLOAD_PATH) / str(user_id) / str(record_id))\<close>.\<close>

definition output_dir_of :: "string \<Rightarrow> int \<Rightarrow> int \<Rightarrow> string" where
  "output_dir_of root user_id record_id =
     root @ ''/'' @ str_int user_id @ ''/'' @ str_int record_id"

definition mkdir_p :: "fs \<Rightarrow> string \<Rightarrow> fs" where
  "mkdir_p fs d = (if path_exists fs d then fs else fs(d \<mapsto> 0))"

definition total_size_of :: "fs \<Rightarrow> string list \<Rightarrow> nat" where
  "total_size_of fs files = sum_list (map (st_size fs) (filter (path_exists fs) files))"

text \<open>
  The \<open>try\<close> block of the job. \<open>fetch service url output_dir fs\<close> is the run of
  \<open>service.download\<close> on the filesystem \<open>fs\<close>. The result pairs the state reached
  with the exception that arrives at \<open>except Exception\<close>, if any.
\<close>

definition job_try ::
  "(string \<rightharpoonup> 'f) \<Rightarrow> ('f \<Rightarrow> ustring \<Rightarrow> string \<Rightarrow> fs \<Rightarrow> outcome \<times> fs) \<Rightarrow> transport \<Rightarrow>
   config \<Rightarrow> string \<times> nat \<Rightarrow> nat \<Rightarrow> world \<Rightarrow> task_data \<Rightarrow> world \<times> string option" where
  "job_try services fetch app cfg tmp now w task =
     (case get_service_for_url services (td_url task) of
        None \<Rightarrow> (w, Some (''No service available for platform: '' @ td_platform task))
      | Some service \<Rightarrow>
          (let output_dir = output_dir_of (DOWNLOAD_PATH cfg) (td_user_id task) (td_record_id task);
               fs1 = mkdir_p (w_fs w) output_dir;
               (out, fs2) = fetch service (td_url task) output_dir fs1
           in case out of
                Raised e \<Rightarrow> (w\<lparr>w_fs := fs2\<rparr>, Some e)
              | Returned result \<Rightarrow>
                  (if fr_success result then
                     (let total_size = total_size_of fs2 (fr_files result);
                          db1 = update_download_record (w_db w) now (td_record_id task)
                                  ''completed'' (Some output_dir) (Some (int total_size)) None;
                          d = send_files_to_user app tmp fs2 (td_chat_id task)
                                (fr_files result) (fr_metadata result)
                      in (w\<lparr>w_db := db1, w_fs := dl_fs d, w_sent := w_sent w @ dl_sent d\<rparr>,
                          dl_raised d))
                   else
                     (let error_msg = (case fr_error result of Some e \<Rightarrow> e
                                       | None \<Rightarrow> ''Unknown error'');
                          db1 = update_download_record (w_db w) now (td_record_id task)
                                  ''failed'' None None (Some error_msg);
                          a = SendMessage (td_chat_id task)
                                (download_failed_text (td_url task) error_msg)
                      in case app a of
                           None \<Rightarrow> (w\<lparr>w_db := db1, w_fs := fs2, w_sent := w_sent w @ [a]\<rparr>, None)
                         | Some e \<Rightarrow> (w\<lparr>w_db := db1, w_fs := fs2\<rparr>, Some e)))))"

text \<open>
  \<open>process_download_task\<close>: the \<open>except\<close> clause marks the record failed and tries
  to tell the requester (an exception of that send is swallowed); the \<open>finally\<close>
  clause creates the cleanup coroutine.
\<close>

definition process_download_task ::
  "(string \<rightharpoonup> 'f) \<Rightarrow> ('f \<Rightarrow> ustring \<Rightarrow> string \<Rightarrow> fs \<Rightarrow> outcome \<times> fs) \<Rightarrow> transport \<Rightarrow>
   config \<Rightarrow> string \<times> nat \<Rightarrow> nat \<Rightarrow> world \<Rightarrow> task_data \<Rightarrow> world" where
  "process_download_task services fetch app cfg tmp now w task =
     (let (w1, exc) = job_try services fetch app cfg tmp now w task;
          w2 = (case exc of
                  None \<Rightarrow> w1
                | Some e \<Rightarrow>
                    (let db2 = update_download_record (w_db w1) now (td_record_id task)
                                 ''failed'' None None (Some e);
                         a = SendMessage (td_chat_id task)
                               (download_failed_text (td_url task) e)
                     in w1\<lparr>w_db := db2,
                           w_sent := (case app a of None \<Rightarrow> w_sent w1 @ [a]
                                      | Some _ \<Rightarrow> w_sent w1)\<rparr>))
      in w2\<lparr>w_cleanups := w_cleanups w2 @
               [(td_user_id task, td_record_id task, CLEANUP_DELAY_HOURS cfg)]\<rparr>)"

section \<open>Admission control (main.py, the download semaphore)\<close>

text \<open>
  Every job runs its whole body inside \<open>async with self.download_semaphore\<close>. A job is
  \<open>Waiting\<close> at the semaphore, \<open>Admitted\<close> once it holds a slot, \<open>Fetching\<close>
  while \<open>service.download\<close> runs, \<open>Finishing\<close> from the return (or an exception) to
  the end of the block, and \<open>Released\<close> afterwards. The semaphore is its counter:
  acquiring needs a positive value and takes one, releasing gives one back. The event
  loop starts the jobs in the order the queue worker created them, acquiring is the first
  thing a job does, and the semaphore serves its waiters first in, first out; so a slot
  goes to the waiting job that was spawned first. Jobs are listed in spawn order.
\<close>

datatype phase = Waiting | Admitted | Fetching | Finishing | Released

record pool =
  sem_value :: nat
  jobs :: "phase list"

definition init_pool :: "config \<Rightarrow> pool" where
  "init_pool cfg = \<lparr>sem_value = MAX_CONCURRENT_DOWNLOADS cfg, jobs = []\<rparr>"

inductive pool_step :: "pool \<Rightarrow> pool \<Rightarrow> bool" where
  spawn: "pool_step s (s\<lparr>jobs := jobs s @ [Waiting]\<rparr>)"
| acquire: "i < length (jobs s) \<Longrightarrow> jobs s ! i = Waiting \<Longrightarrow>
     \<forall>k < i. jobs s ! k \<noteq> Waiting \<Longrightarrow> 0 < sem_value s \<Longrightarrow>
     pool_step s (s\<lparr>sem_value := sem_value s - 1, jobs := (jobs s)[i := Admitted]\<rparr>)"
| begin_fetch: "i < length (jobs s) \<Longrightarrow> jobs s ! i = Admitted \<Longrightarrow>
     pool_step s (s\<lparr>jobs := (jobs s)[i := Fetching]\<rparr>)"
| no_fetch: "i < length (jobs s) \<Longrightarrow> jobs s ! i = Admitted \<Longrightarrow>
     pool_step s (s\<lparr>jobs := (jobs s)[i := Finishing]\<rparr>)"
| end_fetch: "i < length (jobs s) \<Longrightarrow> jobs s ! i = Fetching \<Longrightarrow>
     pool_step s (s\<lparr>jobs := (jobs s)[i := Finishing]\<rparr>)"
| release: "i < length (jobs s) \<Longrightarrow> jobs s ! i = Finishing \<Longrightarrow>
     pool_step s (s\<lparr>sem_value := sem_value s + 1, jobs := (jobs s)[i := Released]\<rparr>)"

inductive pool_reachable :: "config \<Rightarrow> pool \<Rightarrow> bool" for cfg where
  pool_init: "pool_reachable cfg (init_pool cfg)"
| pool_next: "pool_reachable cfg s \<Longrightarrow> pool_step s s' \<Longrightarrow> pool_reachable cfg s'"

definition holding :: "phase \<Rightarrow> bool" where
  "holding p = (p = Admitted \<or> p = Fetching \<or> p = Finishing)"

definition count_phase :: "(phase \<Rightarrow> bool) \<Rightarrow> phase list \<Rightarrow> nat" where
  "count_phase P ps = length (filter P ps)"

section \<open>Deferred cleanup (main.py, cleanup\_user\_files)\<close>

text \<open>
  \<open>shutil.rmtree(d)\<close> removes \<open>d\<close> and every path beneath it. \<open>cleanup_after_sleep\<close>
  is the part of \<open>cleanup_user_files\<close> behind the \<open>await asyncio.sleep\<close>.
\<close>

definition beneath :: "string \<Rightarrow> string \<Rightarrow> bool" where
  "beneath d p = (p = d \<or> take (length d + 1) p = d @ ''/'')"

definition rmtree :: "fs \<Rightarrow> string \<Rightarrow> fs" where
  "rmtree fs d = (\<lambda>p. if beneath d p then None else fs p)"

definition cleanup_after_sleep :: "config \<Rightarrow> fs \<Rightarrow> int \<Rightarrow> int \<Rightarrow> fs" where
  "cleanup_after_sleep cfg fs user_id record_id =
     (let user_dir = output_dir_of (DOWNLOAD_PATH cfg) user_id record_id
      in if path_exists fs user_dir then rmtree fs user_dir else fs)"

text \<open>
  Time is a clock counting seconds. A cleanup coroutine created at \<open>cl_started\<close> sleeps
  \<open>delay_hours * 3600\<close> seconds (\<open>asyncio.sleep\<close> returns at once for a delay that is
  not positive) and then runs \<open>cleanup_after_sleep\<close>. The other steps are the passing
  of time, a job's \<open>finally\<close> clause creating a coroutine, and a fetcher writing a
  file.
\<close>

record cleanup =
  cl_user_id :: int
  cl_record_id :: int
  cl_delay_hours :: int
  cl_started :: int

record timed =
  clock :: int
  disk :: fs
  sleeping :: "cleanup list"

definition wake_time :: "cleanup \<Rightarrow> int" where
  "wake_time c = cl_started c + max 0 (cl_delay_hours c * 3600)"

inductive timed_step :: "config \<Rightarrow> timed \<Rightarrow> timed \<Rightarrow> bool" for cfg where
  tick: "0 \<le> d \<Longrightarrow> timed_step cfg s (s\<lparr>clock := clock s + d\<rparr>)"
| schedule: "timed_step cfg s
     (s\<lparr>sleeping := sleeping s @
          [\<lparr>cl_user_id = user_id, cl_record_id = record_id,
            cl_delay_hours = CLEANUP_DELAY_HOURS cfg, cl_started = clock s\<rparr>]\<rparr>)"
| file_written: "timed_step cfg s (s\<lparr>disk := (disk s)(p \<mapsto> n)\<rparr>)"
| fire: "i < length (sleeping s) \<Longrightarrow> c = sleeping s ! i \<Longrightarrow> wake_time c \<le> clock s \<Longrightarrow>
     timed_step cfg s
       (s\<lparr>disk := cleanup_after_sleep cfg (disk s) (cl_user_id c) (cl_record_id c),
          sleeping := take i (sleeping s) @ drop (Suc i) (sleeping s)\<rparr>)"

inductive timed_reachable :: "config \<Rightarrow> timed \<Rightarrow> bool" for cfg where
  timed_init: "timed_reachable cfg \<lparr>clock = t0, disk = fs, sleeping = []\<rparr>"
| timed_next: "timed_reachable cfg s \<Longrightarrow> timed_step cfg s s' \<Longrightarrow> timed_reachable cfg s'"

section \<open>Properties of the ledger\<close>

text \<open>
  Claim C10. Updating a download record whose id is not in the ledger is a silent no-op:
  the function returns normally and the ledger is exactly the one it was given, so no row
  is created and no existing row is modified.
\<close>

theorem update_missing_record_noop:
  assumes "db record_id = None"
  shows "update_download_record db now record_id status file_path file_size error_message = db"
  using assms by (simp add: update_download_record_def)

theorem update_missing_record_noop_witness:
  "[1 \<mapsto> new_record 7 (uni ''u'') ''tiktok'' 0] (2::int) = None \<and>
   update_download_record [1 \<mapsto> new_record 7 (uni ''u'') ''tiktok'' 0] 5 2 ''completed''
     (Some ''downloads/7/2'') (Some 60) None = [1 \<mapsto> new_record 7 (uni ''u'') ''tiktok'' 0]"
  using update_missing_record_noop [of "[1 \<mapsto> new_record 7 (uni ''u'') ''tiktok'' 0]" 2 5
      "''completed''" "Some ''downloads/7/2''" "Some 60" None]
  by simp

section \<open>Properties of the URL classifier\<close>






















section \<open>Properties of the delivery step\<close>

lemma zip_write_all_eq:
  "zip_write_all fs files zf = zf @ map (\<lambda>f. (path_name f, f)) (filter (path_exists fs) files)"
  by (induction files arbitrary: zf) simp_all

lemma split_slash_no_slash:
  "CHR ''/'' \<notin> set cur \<Longrightarrow> s \<in> set (split_slash p cur) \<Longrightarrow> CHR ''/'' \<notin> set s"
proof (induction p arbitrary: cur)
  case Nil
  then show ?case by simp
next
  case (Cons c cs)
  show ?case
  proof (cases "c = CHR ''/''")
    case True
    with Cons.prems have "s = cur \<or> s \<in> set (split_slash cs [])" by simp
    then show ?thesis
    proof
      assume "s = cur"
      with Cons.prems show ?thesis by simp
    next
      assume "s \<in> set (split_slash cs [])"
      then show ?thesis using Cons.IH [of "[]"] by simp
    qed
  next
    case False
    with Cons.prems have "s \<in> set (split_slash cs (cur @ [c]))" by simp
    moreover from False Cons.prems have "CHR ''/'' \<notin> set (cur @ [c])" by simp
    ultimately show ?thesis using Cons.IH [of "cur @ [c]"] by blast
  qed
qed

lemma path_name_no_slash: "CHR ''/'' \<notin> set (path_name p)"
proof (cases "rev (path_parts p)")
  case Nil
  then show ?thesis by (simp add: path_name_def)
next
  case (Cons n ns)
  then have "n \<in> set (path_parts p)"
    by (metis list.set_intros(1) set_rev)
  then have "n \<in> set (split_slash p [])" by (simp add: path_parts_def)
  then have "CHR ''/'' \<notin> set n" using split_slash_no_slash [of "[]" n p] by simp
  with Cons show ?thesis by (simp add: path_name_def)
qed

lemma send_files_archive:
  "length files > 1 \<Longrightarrow>
   dl_archive (send_files_to_user app tmp fs chat_id files md) = Some (zip_write_all fs files [])"
  by (cases files)
     (simp_all add: send_files_to_user_def send_files_body_def Let_def split: option.splits)

lemma send_files_archive_sent:
  "length files > 1 \<Longrightarrow> app (SendDocument chat_id (fst tmp) (archive_caption md files)) = None \<Longrightarrow>
   dl_sent (send_files_to_user app tmp fs chat_id files md) =
     [SendDocument chat_id (fst tmp) (archive_caption md files)]"
  by (cases files)
     (simp_all add: send_files_to_user_def send_files_body_def Let_def split: option.splits)

text \<open>
  Claim C2, as stated, fails: two produced files \<open>d/a/x.txt\<close> and \<open>d/b/x.txt\<close> give
  two archive entries that are both named \<open>x.txt\<close>; nothing renames the second one.
\<close>

theorem archive_names_collide_counterexample:
  "dl_archive (send_files_to_user (\<lambda>a. None) (''/tmp/t.zip'', 300)
      [''d/a/x.txt'' \<mapsto> 10, ''d/b/x.txt'' \<mapsto> 20] 1 [''d/a/x.txt'', ''d/b/x.txt''] Map.empty)
    = Some [(''x.txt'', ''d/a/x.txt''), (''x.txt'', ''d/b/x.txt'')] \<and>
   \<not> distinct (map fst (the (dl_archive (send_files_to_user (\<lambda>a. None) (''/tmp/t.zip'', 300)
      [''d/a/x.txt'' \<mapsto> 10, ''d/b/x.txt'' \<mapsto> 20] 1 [''d/a/x.txt'', ''d/b/x.txt'']
      Map.empty))))"
  by (simp add: send_files_to_user_def send_files_body_def Let_def path_exists_def
      path_name_def path_parts_def)

text \<open>
  Claim C2, amended. For more than one produced file the delivery step writes one archive
  whose entries are, in order, the produced files that still exist, each under its base
  name; a base name never holds a \<open>/\<close>, so the entries are top-level. When all N files
  exist the N entry names are the N base names (equal base names give equal entry names).
  When the transport accepts it, the archive is the one document sent.
\<close>

theorem archive_entries_flattened:
  assumes "length files > 1"
  shows "dl_archive (send_files_to_user app tmp fs chat_id files md) =
           Some (map (\<lambda>f. (path_name f, f)) (filter (path_exists fs) files)) \<and>
         (\<forall>f \<in> set files. CHR ''/'' \<notin> set (path_name f)) \<and>
         ((\<forall>f \<in> set files. path_exists fs f) \<longrightarrow>
            map fst (the (dl_archive (send_files_to_user app tmp fs chat_id files md))) =
              map path_name files) \<and>
         (app (SendDocument chat_id (fst tmp) (archive_caption md files)) = None \<longrightarrow>
            dl_sent (send_files_to_user app tmp fs chat_id files md) =
              [SendDocument chat_id (fst tmp) (archive_caption md files)])"
proof -
  have a: "dl_archive (send_files_to_user app tmp fs chat_id files md) =
           Some (map (\<lambda>f. (path_name f, f)) (filter (path_exists fs) files))"
    using send_files_archive [OF assms] by (simp add: zip_write_all_eq)
  have b: "\<forall>f \<in> set files. CHR ''/'' \<notin> set (path_name f)"
    by (simp add: path_name_no_slash)
  have c: "(\<forall>f \<in> set files. path_exists fs f) \<longrightarrow>
            map fst (the (dl_archive (send_files_to_user app tmp fs chat_id files md))) =
              map path_name files"
    by (simp add: a comp_def)
  show ?thesis using a b c send_files_archive_sent [OF assms] by blast
qed

theorem archive_entries_flattened_witness:
  "length [''d/a.jpg'', ''d/sub/b.jpg''] > 1 \<and>
   dl_archive (send_files_to_user (\<lambda>a. None) (''/tmp/t.zip'', 300)
      [''d/a.jpg'' \<mapsto> 10, ''d/sub/b.jpg'' \<mapsto> 20] 1 [''d/a.jpg'', ''d/sub/b.jpg''] Map.empty)
    = Some [(''a.jpg'', ''d/a.jpg''), (''b.jpg'', ''d/sub/b.jpg'')]"
  using archive_entries_flattened [of "[''d/a.jpg'', ''d/sub/b.jpg'']" "\<lambda>a. None"
      "(''/tmp/t.zip'', 300)" "[''d/a.jpg'' \<mapsto> 10, ''d/sub/b.jpg'' \<mapsto> 20]" 1 Map.empty]
  by (simp add: path_exists_def path_name_def path_parts_def)

text \<open>
  Claim C6 does not hold of the code. With two produced files and a transport whose
  \<open>send_document\<close> raises, the temporary archive is still on disk when
  \<open>send_files_to_user\<close> returns: the \<open>unlink\<close> stands behind the send and is skipped
  by the exception.
\<close>

theorem temp_archive_left_on_send_failure:
  "path_exists (dl_fs (send_files_to_user
      (\<lambda>a. case a of SendDocument _ _ _ \<Rightarrow> Some ''timed out'' | _ \<Rightarrow> None)
      (''/tmp/t.zip'', 300)
      [''d/a.jpg'' \<mapsto> 10, ''d/b.jpg'' \<mapsto> 20] 1 [''d/a.jpg'', ''d/b.jpg''] Map.empty))
     ''/tmp/t.zip''"
  by (simp add: send_files_to_user_def send_files_body_def Let_def path_exists_def)

text \<open>
  Claim C9. When the only produced file is gone at delivery time, the delivery step does
  nothing at all: whatever the transport would do with a call, the result holds no
  completed call, no logged error and no exception, and the filesystem is untouched. The
  empty file list, in contrast, sends the requester the notice that nothing was
  downloaded.
\<close>

theorem single_missing_file_silent:
  assumes "\<not> path_exists fs f"
  shows "send_files_to_user app tmp fs chat_id [f] md =
           \<lparr>dl_sent = [], dl_fs = fs, dl_archive = None, dl_logged = [], dl_raised = None\<rparr> \<and>
         (app (SendMessage chat_id no_files_text) = None \<longrightarrow>
            dl_sent (send_files_to_user app tmp fs chat_id [] md) =
              [SendMessage chat_id no_files_text])"
  using assms
  by (simp add: send_files_to_user_def send_files_body_def attempt_def Let_def)

theorem single_missing_file_silent_witness:
  "\<not> path_exists Map.empty ''d/v.mp4'' \<and>
   dl_sent (send_files_to_user (\<lambda>a. None) (''/tmp/t.zip'', 300) Map.empty 1 [''d/v.mp4'']
      Map.empty) = [] \<and>
   dl_sent (send_files_to_user (\<lambda>a. None) (''/tmp/t.zip'', 300) Map.empty 1 [] Map.empty) =
     [SendMessage 1 no_files_text]"
  using single_missing_file_silent [of Map.empty "''d/v.mp4''" "\<lambda>a. None"
      "(''/tmp/t.zip'', 300)" 1 Map.empty]
  by (simp add: path_exists_def)

section \<open>Properties of the registry\<close>

text \<open>
  Claim C4. On a registry built by discovery, a url classified as platform \<open>p\<close> resolves
  to the service registered under \<open>p\<close> when there is one, otherwise to the service
  registered under \<open>generic\<close> when there is one, otherwise to none; an unclassified url
  resolves to the generic entry. A registry discovered from the tiktok provider alone
  resolves a douyin url to that same instance, and a youtube url to none.
\<close>

theorem lookup_resolution:
  "(detect_platform url = Some p \<longrightarrow>
      get_service_for_url (discover_services load service_files) url =
        (case discover_services load service_files p of
           Some f \<Rightarrow> Some f
         | None \<Rightarrow> discover_services load service_files ''generic'')) \<and>
   (detect_platform url = None \<longrightarrow>
      get_service_for_url (discover_services load service_files) url =
        discover_services load service_files ''generic'') \<and>
   (load ''tiktok_service'' = Some F1 \<longrightarrow>
      discover_services load [''tiktok_service.py''] ''tiktok'' = Some F1 \<and>
      get_service_for_url (discover_services load [''tiktok_service.py''])
        (uni ''https://v.douyin.com/abc'') = Some F1 \<and>
      get_service_for_url (discover_services load [''tiktok_service.py''])
        (uni ''https://youtu.be/abc'') = None)"
proof -
  have d1: "detect_platform (uni ''https://v.douyin.com/abc'') = Some ''douyin''" by code_simp
  have d2: "detect_platform (uni ''https://youtu.be/abc'') = Some ''youtube''" by code_simp
  have st: "stem ''tiktok_service.py'' = ''tiktok_service''" by (simp add: stem_def)
  have rp: "str_replace ''_service'' [] ''tiktok_service'' = ''tiktok''" by simp
  have reg: "load ''tiktok_service'' = Some F1 \<Longrightarrow>
       discover_services load [''tiktok_service.py''] = [''tiktok'' \<mapsto> F1, ''douyin'' \<mapsto> F1]"
    by (simp add: discover_services_def st rp)
  show ?thesis
    by (auto simp add: get_service_for_url_def reg d1 d2 split: option.splits)
qed

theorem lookup_resolution_witness:
  "detect_platform (uni ''https://v.douyin.com/abc'') = Some ''douyin'' \<and>
   (\<lambda>m. if m = ''tiktok_service'' then Some (1::nat) else None) ''tiktok_service'' = Some 1 \<and>
   get_service_for_url
     (discover_services (\<lambda>m. if m = ''tiktok_service'' then Some (1::nat) else None)
        [''tiktok_service.py'']) (uni ''https://v.douyin.com/abc'') = Some 1 \<and>
   get_service_for_url
     (discover_services (\<lambda>m. if m = ''tiktok_service'' then Some (1::nat) else None)
        [''tiktok_service.py'']) (uni ''https://youtu.be/abc'') = None"
proof -
  have d1: "detect_platform (uni ''https://v.douyin.com/abc'') = Some ''douyin''" by code_simp
  show ?thesis
    using d1 lookup_resolution [of "(uni ''https://v.douyin.com/abc'')" "''douyin''"
        "\<lambda>m. if m = ''tiktok_service'' then Some (1::nat) else None" "[''tiktok_service.py'']" 1]
    by (simp add: discover_services_def stem_def)
qed

section \<open>Properties of the download job\<close>

text \<open>
  When the error notice itself goes through, no exception leaves the delivery step: a
  failed send is logged and reported to the requester only.
\<close>

lemma delivery_failure_contained:
  assumes "\<And>e. app (SendMessage chat_id (error_sending_text e)) = None"
  shows "dl_raised (send_files_to_user app tmp fs chat_id files md) = None"
  using assms by (simp add: send_files_to_user_def Let_def split: option.splits)

text \<open>
  Claim C3 does not hold of the code. The fetcher succeeds and the record is marked
  completed; the requester has blocked the bot, so \<open>send_video\<close> raises and so does the
  error notice that the \<open>except\<close> clause of \<open>send_files_to_user\<close> sends. That second
  exception reaches the \<open>except\<close> clause of the job, which marks the record failed.
\<close>

theorem delivery_failure_marks_failed:
  "map_option dh_status
     (w_db (process_download_task [''tiktok'' \<mapsto> (0::nat)]
        (\<lambda>service url out fs.
           (Returned \<lparr>fr_success = True, fr_files = [out @ ''/v.mp4''],
                      fr_metadata = Map.empty, fr_error = None\<rparr>,
            fs(out @ ''/v.mp4'' \<mapsto> 10)))
        (\<lambda>a. Some ''USER_IS_BLOCKED'')
        \<lparr>DOWNLOAD_PATH = ''downloads'', CLEANUP_DELAY_HOURS = 24, MAX_CONCURRENT_DOWNLOADS = 5\<rparr>
        (''/tmp/t.zip'', 300) 100
        \<lparr>w_db = [1 \<mapsto> new_record 7 (uni ''https://tiktok.com/@x/video/123'') ''tiktok'' 0],
          w_fs = Map.empty, w_sent = [], w_cleanups = []\<rparr>
        \<lparr>td_record_id = 1, td_user_id = 7, td_chat_id = 7,
          td_url = (uni ''https://tiktok.com/@x/video/123''), td_platform = ''tiktok''\<rparr>) 1)
   = Some ''failed''"
  by code_simp

text \<open>
  Claim C5 does not hold of the code when the sum is zero. A fetcher that reports success
  with an empty file list leaves the record completed, with its path and completion time,
  but \<open>file_size\<close> keeps the value it had (none): \<open>if file_size:\<close> skips a size of 0.
  With produced files of 10, 20 and 30 bytes the recorded size is 60.
\<close>

theorem zero_size_not_recorded:
  "map_option (\<lambda>r. (dh_status r, dh_file_path r, dh_file_size r, dh_completed_at r))
     (w_db (process_download_task [''youtube'' \<mapsto> (0::nat)]
        (\<lambda>service url out fs.
           (Returned \<lparr>fr_success = True, fr_files = [],
                      fr_metadata = Map.empty, fr_error = None\<rparr>, fs))
        (\<lambda>a. None)
        \<lparr>DOWNLOAD_PATH = ''downloads'', CLEANUP_DELAY_HOURS = 24, MAX_CONCURRENT_DOWNLOADS = 5\<rparr>
        (''/tmp/t.zip'', 300) 100
        \<lparr>w_db = [1 \<mapsto> new_record 7 (uni ''https://youtu.be/abc'') ''youtube'' 0],
          w_fs = Map.empty, w_sent = [], w_cleanups = []\<rparr>
        \<lparr>td_record_id = 1, td_user_id = 7, td_chat_id = 7,
          td_url = (uni ''https://youtu.be/abc''), td_platform = ''youtube''\<rparr>) 1)
   = Some (''completed'', Some ''downloads/7/1'', None, Some 100) \<and>
   map_option (\<lambda>r. (dh_status r, dh_file_path r, dh_file_size r, dh_completed_at r))
     (w_db (process_download_task [''youtube'' \<mapsto> (0::nat)]
        (\<lambda>service url out fs.
           (Returned \<lparr>fr_success = True, fr_files = [out @ ''/a'', out @ ''/b'', out @ ''/c''],
                      fr_metadata = Map.empty, fr_error = None\<rparr>,
            fs(out @ ''/a'' \<mapsto> 10, out @ ''/b'' \<mapsto> 20, out @ ''/c'' \<mapsto> 30)))
        (\<lambda>a. None)
        \<lparr>DOWNLOAD_PATH = ''downloads'', CLEANUP_DELAY_HOURS = 24, MAX_CONCURRENT_DOWNLOADS = 5\<rparr>
        (''/tmp/t.zip'', 300) 100
        \<lparr>w_db = [1 \<mapsto> new_record 7 (uni ''https://youtu.be/abc'') ''youtube'' 0],
          w_fs = Map.empty, w_sent = [], w_cleanups = []\<rparr>
        \<lparr>td_record_id = 1, td_user_id = 7, td_chat_id = 7,
          td_url = (uni ''https://youtu.be/abc''), td_platform = ''youtube''\<rparr>) 1)
   = Some (''completed'', Some ''downloads/7/1'', Some 60, Some 100)"
  by code_simp


section \<open>Properties of admission control\<close>

lemma count_phase_update:
  "i < length ps \<Longrightarrow>
   count_phase P (ps[i := v]) + (if P (ps ! i) then 1 else 0) =
   count_phase P ps + (if P v then 1 else 0)"
  unfolding count_phase_def
proof (induction ps arbitrary: i)
  case Nil
  then show ?case by simp
next
  case (Cons p ps)
  show ?case
  proof (cases i)
    case 0
    then show ?thesis by simp
  next
    case (Suc k)
    with Cons.prems have "k < length ps" by simp
    from Cons.IH [OF this] Suc show ?thesis by simp
  qed
qed

lemma count_phase_append: "count_phase P (ps @ qs) = count_phase P ps + count_phase P qs"
  by (simp add: count_phase_def)

lemma pool_step_invariant:
  assumes "pool_step s s'"
  shows "sem_value s' + count_phase holding (jobs s') = sem_value s + count_phase holding (jobs s)"
  using assms
proof (cases rule: pool_step.cases)
  case spawn
  then show ?thesis by (simp add: count_phase_append) (simp add: count_phase_def holding_def)
next
  case (acquire i)
  with count_phase_update [of i "jobs s" holding Admitted]
  show ?thesis by (simp add: holding_def)
next
  case (begin_fetch i)
  with count_phase_update [of i "jobs s" holding Fetching]
  show ?thesis by (simp add: holding_def)
next
  case (no_fetch i)
  with count_phase_update [of i "jobs s" holding Finishing]
  show ?thesis by (simp add: holding_def)
next
  case (end_fetch i)
  with count_phase_update [of i "jobs s" holding Finishing]
  show ?thesis by (simp add: holding_def)
next
  case (release i)
  with count_phase_update [of i "jobs s" holding Released]
  show ?thesis by (simp add: holding_def)
qed

lemma pool_invariant:
  "pool_reachable cfg s \<Longrightarrow>
   sem_value s + count_phase holding (jobs s) = MAX_CONCURRENT_DOWNLOADS cfg"
proof (induction rule: pool_reachable.induct)
  case pool_init
  show ?case by (simp add: init_pool_def count_phase_def)
next
  case (pool_next s s')
  with pool_step_invariant [of s s'] show ?case by simp
qed

lemma count_phase_mono:
  "(\<And>p. P p \<Longrightarrow> Q p) \<Longrightarrow> count_phase P ps \<le> count_phase Q ps"
  unfolding count_phase_def
  by (induction ps) auto

lemma count_phase_two:
  assumes "i < length ps" "j < length ps" "i \<noteq> j" "P (ps ! i)" "P (ps ! j)"
  shows "2 \<le> count_phase P ps"
proof -
  have "{i, j} \<subseteq> {k. k < length ps \<and> P (ps ! k)}" using assms by auto
  then have "card {i, j} \<le> card {k. k < length ps \<and> P (ps ! k)}"
    by (intro card_mono) auto
  moreover have "card {i, j} = 2" using assms(3) by simp
  ultimately show ?thesis by (simp add: count_phase_def length_filter_conv_card)
qed

lemma pool_step_fifo:
  assumes "pool_step s s'"
    and "\<forall>i j. i < j \<and> j < length (jobs s) \<and> jobs s ! j \<noteq> Waiting \<longrightarrow> jobs s ! i \<noteq> Waiting"
  shows "\<forall>i j. i < j \<and> j < length (jobs s') \<and> jobs s' ! j \<noteq> Waiting \<longrightarrow> jobs s' ! i \<noteq> Waiting"
  using assms(1)
proof (cases rule: pool_step.cases)
  case spawn
  with assms(2) show ?thesis
    by (auto simp add: nth_append less_Suc_eq split: if_splits)
next
  case (acquire n)
  with assms(2) show ?thesis
    by (simp add: nth_list_update) metis
next
  case (begin_fetch n)
  with assms(2) show ?thesis
    by (simp add: nth_list_update) (metis phase.distinct(1))
next
  case (no_fetch n)
  with assms(2) show ?thesis
    by (simp add: nth_list_update) (metis phase.distinct(1))
next
  case (end_fetch n)
  with assms(2) show ?thesis
    by (simp add: nth_list_update) (metis phase.distinct(3))
next
  case (release n)
  with assms(2) show ?thesis
    by (simp add: nth_list_update) (metis phase.distinct(5))
qed

lemma pool_fifo:
  "pool_reachable cfg s \<Longrightarrow>
   \<forall>i j. i < j \<and> j < length (jobs s) \<and> jobs s ! j \<noteq> Waiting \<longrightarrow> jobs s ! i \<noteq> Waiting"
proof (induction rule: pool_reachable.induct)
  case pool_init
  show ?case by (simp add: init_pool_def)
next
  case (pool_next s s')
  from pool_step_fifo [OF pool_next.hyps(2) pool_next.IH] show ?case .
qed

lemma released_stays:
  "pool_step s s' \<Longrightarrow> i < length (jobs s) \<Longrightarrow> jobs s ! i = Released \<Longrightarrow>
   jobs s' ! i = Released"
  by (cases rule: pool_step.cases) (auto simp add: nth_append nth_list_update)

lemma bound_one_order:
  assumes "pool_reachable cfg s" and "MAX_CONCURRENT_DOWNLOADS cfg = 1"
    and "i < j" and "j < length (jobs s)" and "holding (jobs s ! j)"
  shows "jobs s ! i = Released"
proof -
  have inv: "sem_value s + count_phase holding (jobs s) = 1"
    using pool_invariant [OF assms(1)] assms(2) by simp
  have "jobs s ! j \<noteq> Waiting" using assms(5) by (auto simp add: holding_def)
  then have nw: "jobs s ! i \<noteq> Waiting" using pool_fifo [OF assms(1)] assms(3,4) by blast
  have nh: "\<not> holding (jobs s ! i)"
  proof
    assume "holding (jobs s ! i)"
    then have "2 \<le> count_phase holding (jobs s)"
      using count_phase_two [of i "jobs s" j holding] assms(3,4,5) by simp
    with inv show False by simp
  qed
  from nw nh show ?thesis by (cases "jobs s ! i") (simp_all add: holding_def)
qed

text \<open>
  Claim C1. In every state the job pool can reach, the number of jobs whose
  \<open>service.download\<close> has started and not yet returned is at most
  \<open>MAX_CONCURRENT_DOWNLOADS\<close>, however many jobs were spawned. With a bound of 1, whenever
  a job holds the slot (and so whenever its fetch begins or runs), every job spawned
  before it has left the semaphore block, its own fetch having returned, and stays so;
  and while one job is fetching, every other job is waiting or has left.
\<close>

theorem concurrent_fetches_bounded:
  assumes "pool_reachable cfg s"
  shows "count_phase (\<lambda>p. p = Fetching) (jobs s) \<le> MAX_CONCURRENT_DOWNLOADS cfg \<and>
         (MAX_CONCURRENT_DOWNLOADS cfg = 1 \<longrightarrow>
            (\<forall>i j. i < j \<and> j < length (jobs s) \<and> holding (jobs s ! j) \<longrightarrow>
                   jobs s ! i = Released)) \<and>
         (\<forall>s' i. pool_step s s' \<and> i < length (jobs s) \<and> jobs s ! i = Released \<longrightarrow>
                 jobs s' ! i = Released) \<and>
         (MAX_CONCURRENT_DOWNLOADS cfg = 1 \<longrightarrow>
            (\<forall>i j. i < length (jobs s) \<and> j < length (jobs s) \<and> i \<noteq> j \<and>
                   jobs s ! i = Fetching \<longrightarrow>
                   jobs s ! j = Waiting \<or> jobs s ! j = Released))"
proof -
  have inv: "sem_value s + count_phase holding (jobs s) = MAX_CONCURRENT_DOWNLOADS cfg"
    using assms by (rule pool_invariant)
  have le: "count_phase (\<lambda>p. p = Fetching) (jobs s) \<le> count_phase holding (jobs s)"
    by (rule count_phase_mono) (simp add: holding_def)
  have bound: "count_phase (\<lambda>p. p = Fetching) (jobs s) \<le> MAX_CONCURRENT_DOWNLOADS cfg"
    using inv le by linarith
  have order: "MAX_CONCURRENT_DOWNLOADS cfg = 1 \<longrightarrow>
      (\<forall>i j. i < j \<and> j < length (jobs s) \<and> holding (jobs s ! j) \<longrightarrow> jobs s ! i = Released)"
    using bound_one_order [OF assms] by blast
  have final: "\<forall>s' i. pool_step s s' \<and> i < length (jobs s) \<and> jobs s ! i = Released \<longrightarrow>
      jobs s' ! i = Released"
    using released_stays by blast
  have excl: "jobs s ! j = Waiting \<or> jobs s ! j = Released"
    if one: "MAX_CONCURRENT_DOWNLOADS cfg = 1"
      and ij: "i < length (jobs s)" "j < length (jobs s)" "i \<noteq> j" "jobs s ! i = Fetching"
    for i j
  proof (rule ccontr)
    assume "\<not> (jobs s ! j = Waiting \<or> jobs s ! j = Released)"
    then have "holding (jobs s ! j)" by (cases "jobs s ! j") (simp_all add: holding_def)
    moreover have "holding (jobs s ! i)" using ij(4) by (simp add: holding_def)
    ultimately have "2 \<le> count_phase holding (jobs s)"
      using count_phase_two [of i "jobs s" j holding] ij by simp
    with inv one show False by simp
  qed
  show ?thesis using bound order final excl by blast
qed

text \<open>
  An instance with bound 1 and two jobs: the first has fetched and left, the second is
  fetching.
\<close>

theorem concurrent_fetches_bounded_witness:
  "pool_reachable \<lparr>DOWNLOAD_PATH = ''downloads'', CLEANUP_DELAY_HOURS = 24,
                    MAX_CONCURRENT_DOWNLOADS = 1\<rparr> \<lparr>sem_value = 0, jobs = [Released, Fetching]\<rparr> \<and>
   count_phase (\<lambda>p. p = Fetching) [Released, Fetching] \<le> 1 \<and>
   (0::nat) < 1 \<and> holding ([Released, Fetching] ! 1) \<and> [Released, Fetching] ! 0 = Released"
proof -
  let ?cfg = "\<lparr>DOWNLOAD_PATH = ''downloads'', CLEANUP_DELAY_HOURS = 24,
               MAX_CONCURRENT_DOWNLOADS = 1\<rparr>"
  have r0: "pool_reachable ?cfg \<lparr>sem_value = 1, jobs = []\<rparr>"
    using pool_init [of ?cfg] by (simp add: init_pool_def)
  have r1: "pool_reachable ?cfg \<lparr>sem_value = 1, jobs = [Waiting]\<rparr>"
    using pool_next [OF r0 spawn] by simp
  have r2: "pool_reachable ?cfg \<lparr>sem_value = 1, jobs = [Waiting, Waiting]\<rparr>"
    using pool_next [OF r1 spawn] by simp
  have r3: "pool_reachable ?cfg \<lparr>sem_value = 0, jobs = [Admitted, Waiting]\<rparr>"
    using pool_next [OF r2 acquire [of 0]] by simp
  have r4: "pool_reachable ?cfg \<lparr>sem_value = 0, jobs = [Fetching, Waiting]\<rparr>"
    using pool_next [OF r3 begin_fetch [of 0]] by simp
  have r5: "pool_reachable ?cfg \<lparr>sem_value = 0, jobs = [Finishing, Waiting]\<rparr>"
    using pool_next [OF r4 end_fetch [of 0]] by simp
  have r6: "pool_reachable ?cfg \<lparr>sem_value = 1, jobs = [Released, Waiting]\<rparr>"
    using pool_next [OF r5 release [of 0]] by simp
  have r7: "pool_reachable ?cfg \<lparr>sem_value = 0, jobs = [Released, Admitted]\<rparr>"
    using pool_next [OF r6 acquire [of 1]] by simp
  have r8: "pool_reachable ?cfg \<lparr>sem_value = 0, jobs = [Released, Fetching]\<rparr>"
    using pool_next [OF r7 begin_fetch [of 1]] by simp
  show ?thesis
    using r8 concurrent_fetches_bounded [OF r8] by (simp add: holding_def)
qed

text \<open>
  With bound 1 the second of two jobs cannot be fetching while the first still waits.
\<close>

lemma second_job_cannot_overtake:
  "\<not> pool_reachable \<lparr>DOWNLOAD_PATH = ''downloads'', CLEANUP_DELAY_HOURS = 24,
                      MAX_CONCURRENT_DOWNLOADS = 1\<rparr> \<lparr>sem_value = 0, jobs = [Waiting, Fetching]\<rparr>"
proof
  assume r: "pool_reachable \<lparr>DOWNLOAD_PATH = ''downloads'', CLEANUP_DELAY_HOURS = 24,
                      MAX_CONCURRENT_DOWNLOADS = 1\<rparr> \<lparr>sem_value = 0, jobs = [Waiting, Fetching]\<rparr>"
  from bound_one_order [OF r, of 0 1] show False by (simp add: holding_def)
qed

section \<open>Properties of deferred cleanup\<close>

lemma timed_invariant:
  "timed_reachable cfg s \<Longrightarrow>
   \<forall>c \<in> set (sleeping s). cl_delay_hours c = CLEANUP_DELAY_HOURS cfg \<and> cl_started c \<le> clock s"
proof (induction rule: timed_reachable.induct)
  case (timed_init t0 fs)
  show ?case by simp
next
  case (timed_next s s')
  from timed_next.hyps(2) show ?case
  proof (cases rule: timed_step.cases)
    case (tick d)
    with timed_next.IH show ?thesis by fastforce
  next
    case (schedule user_id record_id)
    with timed_next.IH show ?thesis by auto
  next
    case (file_written p n)
    with timed_next.IH show ?thesis by simp
  next
    case (fire i c)
    have "set (take i (sleeping s) @ drop (Suc i) (sleeping s)) \<subseteq> set (sleeping s)"
      using set_take_subset [of i "sleeping s"] set_drop_subset [of "Suc i" "sleeping s"]
      by auto
    with fire timed_next.IH show ?thesis by auto
  qed
qed

lemma cleanup_removes_only_beneath:
  assumes "path_exists fs p" "\<not> path_exists (cleanup_after_sleep cfg fs user_id record_id) p"
  shows "beneath (output_dir_of (DOWNLOAD_PATH cfg) user_id record_id) p"
  using assms
  by (auto simp add: cleanup_after_sleep_def rmtree_def path_exists_def Let_def
      split: if_splits)

lemma cleanup_absent_noop:
  "\<not> path_exists fs (output_dir_of (DOWNLOAD_PATH cfg) user_id record_id) \<Longrightarrow>
   cleanup_after_sleep cfg fs user_id record_id = fs"
  by (simp add: cleanup_after_sleep_def)

lemma cleanup_removes_tree:
  "path_exists fs (output_dir_of (DOWNLOAD_PATH cfg) user_id record_id) \<Longrightarrow>
   beneath (output_dir_of (DOWNLOAD_PATH cfg) user_id record_id) p \<Longrightarrow>
   \<not> path_exists (cleanup_after_sleep cfg fs user_id record_id) p"
  by (simp add: cleanup_after_sleep_def rmtree_def path_exists_def Let_def)

lemma removal_needs_elapsed_delay:
  assumes "timed_reachable cfg s" and "timed_step cfg s s'"
    and "path_exists (disk s) p" and "\<not> path_exists (disk s') p"
  shows "\<exists>c \<in> set (sleeping s).
           beneath (output_dir_of (DOWNLOAD_PATH cfg) (cl_user_id c) (cl_record_id c)) p \<and>
           cl_started c \<le> clock s \<and>
           cl_started c + CLEANUP_DELAY_HOURS cfg * 3600 \<le> clock s"
  using assms(2)
proof (cases rule: timed_step.cases)
  case (tick d)
  with assms(3,4) show ?thesis by simp
next
  case (schedule user_id record_id)
  with assms(3,4) show ?thesis by simp
next
  case (file_written q n)
  with assms(3,4) show ?thesis by (simp add: path_exists_def split: if_splits)
next
  case (fire i c)
  have mem: "c \<in> set (sleeping s)" using fire by simp
  have inv: "cl_delay_hours c = CLEANUP_DELAY_HOURS cfg \<and> cl_started c \<le> clock s"
    using timed_invariant [OF assms(1)] mem by blast
  have b: "beneath (output_dir_of (DOWNLOAD_PATH cfg) (cl_user_id c) (cl_record_id c)) p"
    using cleanup_removes_only_beneath [of "disk s" p cfg "cl_user_id c" "cl_record_id c"]
      assms(3,4) fire by simp
  have "cl_started c + cl_delay_hours c * 3600 \<le> wake_time c"
    by (simp add: wake_time_def)
  with fire inv have "cl_started c + CLEANUP_DELAY_HOURS cfg * 3600 \<le> clock s" by simp
  with mem inv b show ?thesis by blast
qed


text \<open>
  Claim C8. Whenever a step of the system removes a path that existed, a cleanup coroutine
  whose task directory is that path or lies above it was sleeping, and at least
  \<open>CLEANUP_DELAY_HOURS\<close> hours have passed on the clock since that coroutine was
  created. When the task directory is absent, the cleanup leaves the filesystem as it is;
  when it is present, nothing at or beneath it remains afterwards.
\<close>

theorem cleanup_not_before_deadline:
  assumes "timed_reachable cfg s" and "timed_step cfg s s'"
  shows "(path_exists (disk s) p \<and> \<not> path_exists (disk s') p \<longrightarrow>
            (\<exists>c \<in> set (sleeping s).
               beneath (output_dir_of (DOWNLOAD_PATH cfg) (cl_user_id c) (cl_record_id c)) p \<and>
               cl_started c \<le> clock s \<and>
               cl_started c + CLEANUP_DELAY_HOURS cfg * 3600 \<le> clock s)) \<and>
         (\<not> path_exists fs (output_dir_of (DOWNLOAD_PATH cfg) user_id record_id) \<longrightarrow>
            cleanup_after_sleep cfg fs user_id record_id = fs) \<and>
         (path_exists fs (output_dir_of (DOWNLOAD_PATH cfg) user_id record_id) \<and>
          beneath (output_dir_of (DOWNLOAD_PATH cfg) user_id record_id) q \<longrightarrow>
            \<not> path_exists (cleanup_after_sleep cfg fs user_id record_id) q)"
  using removal_needs_elapsed_delay [OF assms] cleanup_absent_noop cleanup_removes_tree
  by blast

theorem cleanup_not_before_deadline_witness:
  "timed_reachable
     \<lparr>DOWNLOAD_PATH = ''downloads'', CLEANUP_DELAY_HOURS = 1, MAX_CONCURRENT_DOWNLOADS = 5\<rparr>
     \<lparr>clock = 3600,
      disk = [''downloads/7/1'' \<mapsto> 0, ''downloads/7/1/v.mp4'' \<mapsto> 10],
      sleeping = [\<lparr>cl_user_id = 7, cl_record_id = 1, cl_delay_hours = 1, cl_started = 0\<rparr>]\<rparr> \<and>
   timed_step
     \<lparr>DOWNLOAD_PATH = ''downloads'', CLEANUP_DELAY_HOURS = 1, MAX_CONCURRENT_DOWNLOADS = 5\<rparr>
     \<lparr>clock = 3600,
      disk = [''downloads/7/1'' \<mapsto> 0, ''downloads/7/1/v.mp4'' \<mapsto> 10],
      sleeping = [\<lparr>cl_user_id = 7, cl_record_id = 1, cl_delay_hours = 1, cl_started = 0\<rparr>]\<rparr>
     \<lparr>clock = 3600, disk = Map.empty, sleeping = []\<rparr> \<and>
   (\<exists>c \<in> set [\<lparr>cl_user_id = 7, cl_record_id = 1, cl_delay_hours = 1, cl_started = 0\<rparr>].
      cl_started c + 1 * 3600 \<le> (3600::int))"
proof -
  let ?cfg = "\<lparr>DOWNLOAD_PATH = ''downloads'', CLEANUP_DELAY_HOURS = 1,
               MAX_CONCURRENT_DOWNLOADS = 5\<rparr>"
  let ?fs = "[''downloads/7/1'' \<mapsto> (0::nat), ''downloads/7/1/v.mp4'' \<mapsto> 10]"
  let ?c = "\<lparr>cl_user_id = 7, cl_record_id = 1, cl_delay_hours = 1, cl_started = 0\<rparr>"
  let ?s = "\<lparr>clock = 3600, disk = ?fs, sleeping = [?c]\<rparr>"
  have dir: "output_dir_of ''downloads'' 7 1 = ''downloads/7/1''" by code_simp
  have r0: "timed_reachable ?cfg \<lparr>clock = 0, disk = ?fs, sleeping = []\<rparr>"
    by (rule timed_init)
  have r1: "timed_reachable ?cfg \<lparr>clock = 0, disk = ?fs, sleeping = [?c]\<rparr>"
    using timed_next [OF r0 schedule [of ?cfg _ 7 1]] by simp
  have r2: "timed_reachable ?cfg ?s"
    using timed_next [OF r1 tick [of 3600 ?cfg]] by simp
  have cl: "cleanup_after_sleep ?cfg ?fs 7 1 = Map.empty"
    by (rule ext) (auto simp add: cleanup_after_sleep_def dir rmtree_def path_exists_def beneath_def Let_def)
  have st: "timed_step ?cfg ?s \<lparr>clock = 3600, disk = Map.empty, sleeping = []\<rparr>"
    using fire [of 0 ?s ?c ?cfg] by (simp add: wake_time_def cl)
  show ?thesis
    using r2 st cleanup_not_before_deadline [OF r2 st, of "''downloads/7/1/v.mp4''"]
    by (simp add: path_exists_def)
qed

end
